theory Spec2Isabelle
  imports Main "HOL-Library.Word" "HOL-Library.Code_Target_Nat"
begin

section \<open>llvm-klee: a harness generator for one function of a bitcode module\<close>

text \<open>
  The tool (\<^verbatim>\<open>llvm/tools/llvm-klee/llvm-klee.cpp\<close>) loads the modules of a bitcode
  file, looks up one function by name in each, and prints a C translation unit that
  declares one symbolic variable per recovered parameter name and calls the function.
  Everything it does is in \<^verbatim>\<open>main\<close>. The model follows \<^verbatim>\<open>main\<close> line by line:
  the text written to \<^verbatim>\<open>std::cout\<close> is a \<open>string\<close>, the local variables of the
  scan (\<^verbatim>\<open>idx\<close>, \<^verbatim>\<open>args\<close>) are a record passed through the loop, and every way
  the run can stop early is a value of \<open>failure\<close>.
\<close>

subsection \<open>Command-line options (lines 43-54)\<close>

text \<open>
  \<^verbatim>\<open>ArraySize\<close> is a \<^verbatim>\<open>cl::opt<std::int32_t>\<close>: a 32-bit word read as two's
  complement. An option that is absent from the command line keeps its \<^verbatim>\<open>cl::init\<close>
  value; \<^verbatim>\<open>FunctionName\<close> has none and defaults to the empty string.
\<close>

record options =
  InputFilename :: string
  FunctionName :: string
  ArraySize :: "32 word"
  TargetTriple :: string

record command_line =
  positional_input :: "string option"
  positional_function :: "string option"
  option_s :: "32 word option"
  option_t :: "string option"

definition cl_init :: "'a \<Rightarrow> 'a option \<Rightarrow> 'a" where
  "cl_init d given = (case given of None \<Rightarrow> d | Some v \<Rightarrow> v)"

definition ParseCommandLineOptions :: "command_line \<Rightarrow> options" where
  "ParseCommandLineOptions c =
     \<lparr>InputFilename = cl_init ''-'' (positional_input c),
      FunctionName = cl_init [] (positional_function c),
      ArraySize = cl_init 1024 (option_s c),
      TargetTriple = cl_init ''x86_64-pc-linux-gnu'' (option_t c)\<rparr>"

subsection \<open>The part of the IR that main reads\<close>

text \<open>
  Of a type, \<^verbatim>\<open>main\<close> asks \<^verbatim>\<open>isPointerTy\<close>, \<^verbatim>\<open>isIntegerTy\<close> and
  \<^verbatim>\<open>getIntegerBitWidth\<close>. Pointers carry their pointee, so that a statement can
  range over it.
\<close>

datatype llvm_type =
    IntegerTy nat
  | PointerTy llvm_type
  | FloatTy
  | DoubleTy
  | VectorTy llvm_type nat
  | ArrayTy llvm_type nat
  | StructTy "llvm_type list"
  | FunctionTy "llvm_type list"

fun isPointerTy :: "llvm_type \<Rightarrow> bool" where
  "isPointerTy (PointerTy _) = True"
| "isPointerTy _ = False"

fun isIntegerTy :: "llvm_type \<Rightarrow> bool" where
  "isIntegerTy (IntegerTy _) = True"
| "isIntegerTy _ = False"

fun getIntegerBitWidth :: "llvm_type \<Rightarrow> nat" where
  "getIntegerBitWidth (IntegerTy w) = w"
| "getIntegerBitWidth _ = 0"

text \<open>
  Metadata and operands. \<^verbatim>\<open>DILocalVariable\<close> and \<^verbatim>\<open>DIExpression\<close> are
  \<^verbatim>\<open>MDNode\<close>s; \<^verbatim>\<open>MDString\<close> and \<^verbatim>\<open>ValueAsMetadata\<close> are not. An operand
  is a metadata wrapper, a function (the callee of a direct call) or any other value.
\<close>

datatype metadata =
    DILocalVariable string
  | DIExpression
  | MDString string
  | ValueAsMetadata

datatype operand =
    MetadataAsValue metadata
  | FunctionValue string
  | OtherValue

text \<open>
  An instruction is a call (callee name and argument operands) or anything else.
  The operand list of a \<^verbatim>\<open>CallInst\<close> is its arguments followed by the callee.
\<close>

datatype instruction =
    CallInst string "operand list"
  | OtherInst

fun isCallInst :: "instruction \<Rightarrow> bool" where
  "isCallInst (CallInst _ _) = True"
| "isCallInst OtherInst = False"

fun operands :: "instruction \<Rightarrow> operand list" where
  "operands (CallInst callee actuals) = actuals @ [FunctionValue callee]"
| "operands OtherInst = []"

record llvm_function =
  function_name :: string
  formals :: "llvm_type list"
  BasicBlocks :: "instruction list list"

record llvm_module =
  ModuleID :: string
  module_triple :: string
  FunctionList :: "llvm_function list"

definition setTargetTriple :: "string \<Rightarrow> ('a llvm_module_scheme) \<Rightarrow> ('a llvm_module_scheme)" where
  "setTargetTriple t M = M\<lparr>module_triple := t\<rparr>"

text \<open>
  \<^verbatim>\<open>getFunction\<close> looks the name up in the module's symbol table. A function
  without a name is not in the table, so the empty name finds nothing.
\<close>

definition getFunction :: "('a llvm_module_scheme) \<Rightarrow> string \<Rightarrow> llvm_function option" where
  "getFunction M n =
     (if n = [] then None else find (\<lambda>F. function_name F = n) (FunctionList M))"

subsection \<open>Ways the run stops early\<close>

text \<open>
  \<^verbatim>\<open>ExitOnErr\<close> prints its banner and the loader's message and exits with status 1.
  The other failures print no diagnostic of the tool's: the member call through the
  null pointer that \<^verbatim>\<open>getFunction\<close> returns for an unknown name (line 168), the
  entry block of a function without a body (line 186), \<^verbatim>\<open>getOperand(1)\<close> past the
  operands, and a \<^verbatim>\<open>cast<>\<close> whose argument is of another class (lines 192-194;
  \<^verbatim>\<open>cast<>\<close> asserts the class). The last three are assertions of the
  LLVM library; the model is of a build that checks them, and in a build that does not
  the behaviour at these points is undefined.
\<close>

datatype failure =
    ExitOnError string
  | NullFunction
  | NoEntryBlock
  | OperandOutOfRange
  | CastFailed

fun diagnostic :: "failure \<Rightarrow> string option" where
  "diagnostic (ExitOnError msg) = Some msg"
| "diagnostic _ = None"

definition ExitOnErr :: "string \<Rightarrow> string + 'a \<Rightarrow> failure + 'a" where
  "ExitOnErr banner e = (case e of Inl msg \<Rightarrow> Inl (ExitOnError (banner @ msg)) | Inr v \<Rightarrow> Inr v)"

definition getEntryBlock :: "llvm_function \<Rightarrow> failure + instruction list" where
  "getEntryBlock F = (case BasicBlocks F of [] \<Rightarrow> Inl NoEntryBlock | BB # _ \<Rightarrow> Inr BB)"

definition getOperand :: "instruction \<Rightarrow> nat \<Rightarrow> failure + operand" where
  "getOperand I k = (if k < length (operands I) then Inr (operands I ! k) else Inl OperandOutOfRange)"

fun cast_MetadataAsValue :: "operand \<Rightarrow> failure + metadata" where
  "cast_MetadataAsValue (MetadataAsValue md) = Inr md"
| "cast_MetadataAsValue _ = Inl CastFailed"

fun cast_MDNode :: "metadata \<Rightarrow> failure + metadata" where
  "cast_MDNode (DILocalVariable n) = Inr (DILocalVariable n)"
| "cast_MDNode DIExpression = Inr DIExpression"
| "cast_MDNode _ = Inl CastFailed"

fun cast_DILocalVariable :: "metadata \<Rightarrow> failure + string" where
  "cast_DILocalVariable (DILocalVariable n) = Inr n"
| "cast_DILocalVariable _ = Inl CastFailed"

definition and_then :: "failure + 'a \<Rightarrow> ('a \<Rightarrow> failure + 'b) \<Rightarrow> failure + 'b" where
  "and_then r f = (case r of Inl e \<Rightarrow> Inl e | Inr v \<Rightarrow> f v)"

text \<open>Lines 192-196: the name of the local variable behind operand 1 of a call.\<close>

definition variable_name :: "instruction \<Rightarrow> failure + string" where
  "variable_name CI =
     and_then (getOperand CI 1) (\<lambda>op1.
     and_then (cast_MetadataAsValue op1) (\<lambda>md.
     and_then (cast_MDNode md) cast_DILocalVariable))"

subsection \<open>Text written to the output stream\<close>

definition endl :: string where
  "endl = [CHR 0x0A]"

definition dquote :: string where
  "dquote = [CHR 0x22]"

definition digit :: "nat \<Rightarrow> char" where
  "digit d = ''0123456789'' ! d"

fun decimal :: "nat \<Rightarrow> string" where
  "decimal n = (if n < 10 then [digit n] else decimal (n div 10) @ [digit (n mod 10)])"

declare decimal.simps [simp del]

definition signed_decimal :: "int \<Rightarrow> string" where
  "signed_decimal i = (if i < 0 then CHR ''-'' # decimal (nat (- i)) else decimal (nat i))"

text \<open>Lines 170-185: the text before the declarations.\<close>

definition preamble :: string where
  "preamble =
     ''#include <stdint.h>'' @ endl @
     ''#include <stdlib.h>'' @ endl @
     endl @
     ''#ifdef __KLEE__'' @ endl @
     ''#include <klee/klee.h>'' @ endl @
     ''#endif'' @ endl @
     endl @
     ''#define i8 int8_t'' @ endl @
     ''#define i16 int16_t'' @ endl @
     ''#define i32 int32_t'' @ endl @
     ''#define i64 int64_t'' @ endl @
     ''#define i128 int128_t'' @ endl @
     endl @
     ''int main(int argc, char** argv) {'' @ endl @
     ''#ifdef __KLEE__'' @ endl"

text \<open>Lines 237-240: the text after the call.\<close>

definition epilogue :: string where
  "epilogue =
     ''#endif'' @ endl @
     endl @
     ''  return 0;'' @ endl @
     ''}'' @ endl"

text \<open>
  Lines 201-218: the declaration and the symbolization call for one parameter of type
  \<open>ty\<close> under the recovered name. The width printed after \<^verbatim>\<open>i\<close> is a
  \<^verbatim>\<open>size_t\<close> that starts at 0 and is set only for an integer type.
\<close>

definition declare_symbolic :: "options \<Rightarrow> llvm_type \<Rightarrow> string \<Rightarrow> string" where
  "declare_symbolic opts ty name =
     (if isPointerTy ty then
        ''  char '' @ name @ ''['' @ signed_decimal (sint (ArraySize opts)) @ ''];'' @ endl @
        ''  klee_make_symbolic('' @ name @ '', sizeof('' @ name @ ''), '' @
          dquote @ name @ dquote @ '');'' @ endl
      else
        (let size = (if isIntegerTy ty then getIntegerBitWidth ty else 0) in
         ''  i'' @ decimal size @ '' '' @ name @ '';'' @ endl @
         ''  klee_make_symbolic(&'' @ name @ '', sizeof('' @ name @ ''), '' @
           dquote @ name @ dquote @ '');'' @ endl))"

text \<open>
  Lines 198-222: the walk over \<^verbatim>\<open>F->args()\<close> with the counter \<^verbatim>\<open>i\<close>, which
  prints for the argument at position \<^verbatim>\<open>idx\<close> and leaves the loop.
\<close>

fun emit_at :: "options \<Rightarrow> nat \<Rightarrow> nat \<Rightarrow> llvm_type list \<Rightarrow> string \<Rightarrow> string" where
  "emit_at opts idx i [] name = []"
| "emit_at opts idx i (arg # rest) name =
     (if idx = i then declare_symbolic opts arg name
      else emit_at opts idx (i + 1) rest name)"

subsection \<open>The scan of the entry block (lines 187-225)\<close>

record scan_state =
  idx :: nat
  args :: "string list"
  cout :: string

definition scan_start :: scan_state where
  "scan_start = \<lparr>idx = 0, args = [], cout = []\<rparr>"

text \<open>
  \<^verbatim>\<open>arg_size\<close> and \<^verbatim>\<open>idx\<close> are \<^verbatim>\<open>unsigned\<close>. The conversion of the
  parameter count and the subtraction \<^verbatim>\<open>arg_size - 1\<close> of line 230 are taken modulo
  \<open>2 ^ 32\<close>; \<^verbatim>\<open>idx++\<close> runs only below \<^verbatim>\<open>arg_size\<close> and cannot wrap.
\<close>

definition to_unsigned :: "nat \<Rightarrow> nat" where
  "to_unsigned n = n mod 2 ^ 32"

definition unsigned_pred :: "nat \<Rightarrow> nat" where
  "unsigned_pred n = (n + 2 ^ 32 - 1) mod 2 ^ 32"

fun scan :: "options \<Rightarrow> llvm_type list \<Rightarrow> nat \<Rightarrow> instruction list \<Rightarrow> scan_state
    \<Rightarrow> failure + scan_state" where
  "scan opts tys arg_size [] s = Inr s"
| "scan opts tys arg_size (I # rest) s =
     (if idx s \<ge> arg_size then Inr s
      else if isCallInst I then
        (case variable_name I of
           Inl e \<Rightarrow> Inl e
         | Inr name \<Rightarrow>
             scan opts tys arg_size rest
               \<lparr>idx = idx s + 1,
                args = args s @ [name],
                cout = cout s @ emit_at opts (idx s) 0 tys name\<rparr>)
      else scan opts tys arg_size rest s)"

subsection \<open>The call line (lines 226-235)\<close>

fun call_arguments :: "nat \<Rightarrow> nat \<Rightarrow> string list \<Rightarrow> string" where
  "call_arguments arg_size i [] = []"
| "call_arguments arg_size i (a # rest) =
     a @ (if i < unsigned_pred arg_size then '', '' else '');'' @ endl)
       @ call_arguments arg_size (i + 1) rest"

subsection \<open>One module, and the loop over the modules (lines 160-241)\<close>

text \<open>
  The result for one module is the module as the tool leaves it, and either the
  document written for it or the failure that ended the run. What is on the output
  stream when a failure ends the run inside a module is given apart, by
  \<open>written_at_failure\<close> below.
\<close>

definition harness :: "options \<Rightarrow> llvm_function \<Rightarrow> failure + string" where
  "harness opts F =
     (let arg_size = to_unsigned (length (formals F)) in
      and_then (getEntryBlock F) (\<lambda>BB.
      and_then (scan opts (formals F) arg_size BB scan_start) (\<lambda>s.
        Inr (preamble @ cout s @
             ''  '' @ FunctionName opts @ ''('' @ call_arguments arg_size 0 (args s) @
             epilogue))))"

definition process_module :: "options \<Rightarrow> ('a llvm_module_scheme)
    \<Rightarrow> ('a llvm_module_scheme) \<times> (failure + string)" where
  "process_module opts M0 =
     (let M = setTargetTriple (TargetTriple opts) M0 in
      (M, case getFunction M (FunctionName opts) of
            None \<Rightarrow> Inl NullFunction
          | Some F \<Rightarrow> harness opts F))"

text \<open>
  The text on the output stream when the iteration for a module ends in a failure.
  Nothing is written before the function is looked up (line 168). The preamble is
  written, and flushed by \<^verbatim>\<open>std::endl\<close>, before the entry block is taken
  (line 186), and each declaration ends with \<^verbatim>\<open>std::endl\<close> too, so a failure at
  an instruction finds the preamble and the declarations of the bindings made so far.
\<close>

fun scan_written :: "options \<Rightarrow> llvm_type list \<Rightarrow> nat \<Rightarrow> instruction list \<Rightarrow> scan_state
    \<Rightarrow> string" where
  "scan_written opts tys arg_size [] s = cout s"
| "scan_written opts tys arg_size (I # rest) s =
     (if idx s \<ge> arg_size then cout s
      else if isCallInst I then
        (case variable_name I of
           Inl e \<Rightarrow> cout s
         | Inr name \<Rightarrow>
             scan_written opts tys arg_size rest
               \<lparr>idx = idx s + 1,
                args = args s @ [name],
                cout = cout s @ emit_at opts (idx s) 0 tys name\<rparr>)
      else scan_written opts tys arg_size rest s)"

definition written_at_failure :: "options \<Rightarrow> ('a llvm_module_scheme) \<Rightarrow> string" where
  "written_at_failure opts M =
     (case getFunction M (FunctionName opts) of
        None \<Rightarrow> []
      | Some F \<Rightarrow>
          preamble @
          (case getEntryBlock F of
             Inl e \<Rightarrow> []
           | Inr BB \<Rightarrow>
               scan_written opts (formals F) (to_unsigned (length (formals F))) BB
                 scan_start))"

text \<open>
  The loader is outside this file: what \<^verbatim>\<open>getLazyModule\<close> and
  \<^verbatim>\<open>materializeAll\<close> give for each module of the container is an input, an error
  message or the module. The loop returns the text written so far and the failure, if
  any, that ended the run.
\<close>

fun modules_loop :: "string \<Rightarrow> options \<Rightarrow> (string + llvm_module) list \<Rightarrow> string
    \<Rightarrow> string \<times> failure option" where
  "modules_loop banner opts [] written = (written, None)"
| "modules_loop banner opts (MB # rest) written =
     (case ExitOnErr banner MB of
        Inl e \<Rightarrow> (written, Some e)
      | Inr M \<Rightarrow>
          (case snd (process_module opts M) of
             Inl e \<Rightarrow> (written @ written_at_failure opts M, Some e)
           | Inr doc \<Rightarrow> modules_loop banner opts rest (written @ doc)))"

definition main :: "string \<Rightarrow> command_line \<Rightarrow> string + (string + llvm_module) list
    \<Rightarrow> string \<times> failure option" where
  "main argv0 cmd loaded =
     (let banner = argv0 @ '': error: '';
          opts = ParseCommandLineOptions cmd in
      case ExitOnErr banner loaded of
        Inl e \<Rightarrow> ([], Some e)
      | Inr Mods \<Rightarrow> modules_loop banner opts Mods [])"

subsection \<open>Notions the statements use\<close>

text \<open>
  The qualification test in the words of the specification (section 4.1): an instruction
  is a debug-declaration record when it is a call to the debug-declare or the debug-value
  intrinsic. The scan itself tests \<open>isCallInst\<close> and never reads the callee.
\<close>

definition is_debug_intrinsic_call :: "instruction \<Rightarrow> bool" where
  "is_debug_intrinsic_call I =
     (case I of
        CallInst callee _ \<Rightarrow> callee = ''llvm.dbg.declare'' \<or> callee = ''llvm.dbg.value''
      | OtherInst \<Rightarrow> False)"

text \<open>
  The two intrinsic calls as a compiler emits them: the described value, the variable
  and the expression, all metadata.
\<close>

definition dbg_declare :: "string \<Rightarrow> instruction" where
  "dbg_declare n =
     CallInst ''llvm.dbg.declare''
       [MetadataAsValue ValueAsMetadata, MetadataAsValue (DILocalVariable n),
        MetadataAsValue DIExpression]"

definition dbg_value :: "string \<Rightarrow> instruction" where
  "dbg_value n =
     CallInst ''llvm.dbg.value''
       [MetadataAsValue ValueAsMetadata, MetadataAsValue (DILocalVariable n),
        MetadataAsValue DIExpression]"

text \<open>
  What the scan takes from one instruction when it does not fail on it, and the names
  it can take from a block, in program order.
\<close>

definition recovered_name :: "instruction \<Rightarrow> string option" where
  "recovered_name I =
     (if isCallInst I then (case variable_name I of Inl _ \<Rightarrow> None | Inr n \<Rightarrow> Some n)
      else None)"

definition recovered_names :: "instruction list \<Rightarrow> string list" where
  "recovered_names BB = List.map_filter recovered_name BB"

definition well_formed_calls :: "instruction list \<Rightarrow> bool" where
  "well_formed_calls BB = list_all (\<lambda>I. \<not> isCallInst I \<or> recovered_name I \<noteq> None) BB"

text \<open>
  The name of a record in the sense of the specification: a call to one of the two
  debug intrinsics, with the variable the scan reads from it. A block has only debug
  calls when each of its calls is such a record.
\<close>

definition debug_record_name :: "instruction \<Rightarrow> string option" where
  "debug_record_name I = (if is_debug_intrinsic_call I then recovered_name I else None)"

definition only_debug_calls :: "instruction list \<Rightarrow> bool" where
  "only_debug_calls BB = list_all (\<lambda>I. \<not> isCallInst I \<or> debug_record_name I \<noteq> None) BB"

fun comma_separated :: "string list \<Rightarrow> string" where
  "comma_separated [] = []"
| "comma_separated [a] = a"
| "comma_separated (a # b # rest) = a @ '', '' @ comma_separated (b # rest)"

text \<open>Reading a printed number back: the value a decimal text denotes.\<close>

definition digit_value :: "char \<Rightarrow> nat" where
  "digit_value c = of_char c - 48"

definition decimal_value :: "string \<Rightarrow> nat" where
  "decimal_value ds = foldl (\<lambda>v c. 10 * v + digit_value c) 0 ds"

definition signed_value :: "string \<Rightarrow> int" where
  "signed_value ds =
     (case ds of
        [] \<Rightarrow> 0
      | c # rest \<Rightarrow> if c = CHR ''-'' then - int (decimal_value rest) else int (decimal_value ds))"

text \<open>
  The object-like macros a text defines, as the C preprocessor reads its
  \<^verbatim>\<open>#define\<close> lines: the name up to the first blank, and the replacement after it.
\<close>

fun lines_of :: "string \<Rightarrow> string list" where
  "lines_of [] = []"
| "lines_of (c # cs) =
     (if c = CHR 0x0A then [] # lines_of cs
      else (case lines_of cs of [] \<Rightarrow> [[c]] | l # ls \<Rightarrow> (c # l) # ls))"

definition define_of_line :: "string \<Rightarrow> (string \<times> string) option" where
  "define_of_line l =
     (if take 8 l = ''#define '' then
        (let r = drop 8 l in
         Some (takeWhile (\<lambda>c. c \<noteq> CHR '' '') r, drop 1 (dropWhile (\<lambda>c. c \<noteq> CHR '' '') r)))
      else None)"

definition defines_of :: "string \<Rightarrow> (string \<times> string) list" where
  "defines_of txt = List.map_filter define_of_line (lines_of txt)"

text \<open>
  The command line \<^verbatim>\<open>llvm-klee file f\<close>, with neither \<^verbatim>\<open>-s\<close> nor
  \<^verbatim>\<open>-t\<close>.
\<close>

definition plain_command :: "string \<Rightarrow> string \<Rightarrow> command_line" where
  "plain_command file f =
     \<lparr>positional_input = Some file, positional_function = Some f, option_s = None,
      option_t = None\<rparr>"

text \<open>
  The exact-width signed integer types that \<^verbatim>\<open><stdint.h>\<close> declares, with
  their sizes in 8-bit bytes: \<^verbatim>\<open>intN_t\<close> has exactly \<open>N\<close> bits and no padding.
  The header declares no 128-bit type. The size of the type an alias of a document
  stands for is the size of the replacement its \<^verbatim>\<open>#define\<close> line gives, when
  that is one of these types.
\<close>

definition stdint_sizeof :: "string \<Rightarrow> nat option" where
  "stdint_sizeof t =
     (if t = ''int8_t'' then Some 1 else if t = ''int16_t'' then Some 2
      else if t = ''int32_t'' then Some 4 else if t = ''int64_t'' then Some 8 else None)"

definition alias_bytes :: "string \<Rightarrow> string \<Rightarrow> nat option" where
  "alias_bytes doc a =
     (case map_of (defines_of doc) a of None \<Rightarrow> None | Some t \<Rightarrow> stdint_sizeof t)"

section \<open>Properties\<close>

subsection \<open>Unsigned arithmetic and printing\<close>

lemma to_unsigned_small: "n < 2 ^ 32 \<Longrightarrow> to_unsigned n = n"
  by (simp add: to_unsigned_def)

lemma unsigned_pred_zero: "unsigned_pred 0 = 4294967295"
  by (simp add: unsigned_pred_def)

lemma unsigned_pred_pos: "0 < n \<Longrightarrow> n < 2 ^ 32 \<Longrightarrow> unsigned_pred n = n - 1"
  by (simp add: unsigned_pred_def mod_if)

lemma defines_of_preamble:
  "defines_of preamble =
     [(''i8'', ''int8_t''), (''i16'', ''int16_t''), (''i32'', ''int32_t''),
      (''i64'', ''int64_t''), (''i128'', ''int128_t'')]"
  by code_simp

lemma digit_value_digit: "d < 10 \<Longrightarrow> digit_value (digit d) = d"
proof -
  assume "d < 10"
  then have "d \<in> {0, 1, 2, 3, 4, 5, 6, 7, 8, 9}" by auto
  then show ?thesis by (auto simp: digit_value_def digit_def)
qed

lemma decimal_value_snoc: "decimal_value (ds @ [c]) = 10 * decimal_value ds + digit_value c"
  by (simp add: decimal_value_def)

lemma decimal_value_decimal: "decimal_value (decimal n) = n"
proof (induction n rule: decimal.induct)
  case (1 n)
  show ?case
  proof (cases "n < 10")
    case True
    then show ?thesis
      by (simp add: decimal.simps [of n] decimal_value_def digit_value_digit)
  next
    case False
    with 1 have "decimal_value (decimal (n div 10)) = n div 10" by simp
    with False show ?thesis
      by (simp add: decimal.simps [of n] decimal_value_snoc digit_value_digit)
  qed
qed

lemma decimal_not_empty: "decimal n \<noteq> []"
  by (subst decimal.simps) simp

lemma digit_not_minus: "d < 10 \<Longrightarrow> digit d \<noteq> CHR ''-''"
proof -
  assume "d < 10"
  then have "d \<in> {0, 1, 2, 3, 4, 5, 6, 7, 8, 9}" by auto
  then show ?thesis by (auto simp: digit_def)
qed

lemma hd_decimal_not_minus: "hd (decimal n) \<noteq> CHR ''-''"
proof (induction n rule: decimal.induct)
  case (1 n)
  show ?case
  proof (cases "n < 10")
    case True
    then show ?thesis by (simp add: decimal.simps [of n] digit_not_minus)
  next
    case False
    with 1 have "hd (decimal (n div 10)) \<noteq> CHR ''-''" by simp
    with False show ?thesis
      by (simp add: decimal.simps [of n] decimal_not_empty)
  qed
qed

lemma signed_value_signed_decimal: "signed_value (signed_decimal i) = i"
proof (cases "i < 0")
  case True
  then show ?thesis
    by (simp add: signed_value_def signed_decimal_def decimal_value_decimal)
next
  case False
  obtain c rest where d: "decimal (nat i) = c # rest"
    using decimal_not_empty [of "nat i"] by (cases "decimal (nat i)") auto
  with hd_decimal_not_minus [of "nat i"] have "c \<noteq> CHR ''-''" by simp
  with False d decimal_value_decimal [of "nat i"] show ?thesis
    by (simp add: signed_value_def signed_decimal_def)
qed

subsection \<open>The scan and the call line\<close>

lemma emit_at_offset:
  "k < length tys \<Longrightarrow> emit_at opts (i + k) i tys n = declare_symbolic opts (tys ! k) n"
proof (induction tys arbitrary: i k)
  case Nil
  then show ?case by simp
next
  case (Cons ty tys)
  show ?case
  proof (cases k)
    case 0
    then show ?thesis by simp
  next
    case (Suc k')
    with Cons.prems have "k' < length tys" by simp
    from Cons.IH [OF this, of "i + 1"] Suc show ?thesis by simp
  qed
qed

lemma emit_at_nth:
  "k < length tys \<Longrightarrow> emit_at opts k 0 tys n = declare_symbolic opts (tys ! k) n"
  using emit_at_offset [of k tys opts 0 n] by simp

lemma recovered_names_Cons:
  "recovered_names (I # BB) =
     (case recovered_name I of None \<Rightarrow> recovered_names BB | Some n \<Rightarrow> n # recovered_names BB)"
  by (simp add: recovered_names_def split: option.splits)

lemma scan_stopped: "P \<le> idx s \<Longrightarrow> scan opts tys P BB s = Inr s"
  by (cases BB) simp_all

lemma scan_args:
  "scan opts tys P BB s = Inr s' \<Longrightarrow> idx s = length (args s) \<Longrightarrow>
     args s' = args s @ take (P - idx s) (recovered_names BB) \<and> idx s' = length (args s')"
proof (induction BB arbitrary: s)
  case Nil
  then show ?case by (simp add: recovered_names_def)
next
  case (Cons I BB)
  show ?case
  proof (cases "P \<le> idx s")
    case True
    with Cons.prems show ?thesis by simp
  next
    case False
    show ?thesis
    proof (cases "isCallInst I")
      case call: True
      from Cons.prems(1) False call obtain n where n: "variable_name I = Inr n"
        by (cases "variable_name I") auto
      let ?s = "\<lparr>idx = idx s + 1, args = args s @ [n],
                 cout = cout s @ emit_at opts (idx s) 0 tys n\<rparr>"
      from Cons.prems(1) False call n have "scan opts tys P BB ?s = Inr s'" by simp
      from Cons.IH [OF this] Cons.prems(2)
      have "args s' = (args s @ [n]) @ take (P - (idx s + 1)) (recovered_names BB)"
        and "idx s' = length (args s')" by simp_all
      moreover have "recovered_names (I # BB) = n # recovered_names BB"
        using call n by (simp add: recovered_names_Cons recovered_name_def)
      moreover from False have "P - idx s = Suc (P - (idx s + 1))" by simp
      ultimately show ?thesis by simp
    next
      case other: False
      with Cons.prems(1) False have "scan opts tys P BB s = Inr s'" by simp
      from Cons.IH [OF this Cons.prems(2)] other show ?thesis
        by (simp add: recovered_names_Cons recovered_name_def)
    qed
  qed
qed

lemma scan_cout:
  "scan opts tys P BB s = Inr s' \<Longrightarrow> idx s = length (args s) \<Longrightarrow> P \<le> length tys \<Longrightarrow>
     cout s' = cout s @
       concat (map2 (declare_symbolic opts) (drop (idx s) tys) (drop (idx s) (args s')))"
proof (induction BB arbitrary: s)
  case Nil
  then show ?case by simp
next
  case (Cons I BB)
  show ?case
  proof (cases "P \<le> idx s")
    case True
    with Cons.prems show ?thesis by simp
  next
    case False
    show ?thesis
    proof (cases "isCallInst I")
      case call: True
      from Cons.prems(1) False call obtain n where n: "variable_name I = Inr n"
        by (cases "variable_name I") auto
      let ?s = "\<lparr>idx = idx s + 1, args = args s @ [n],
                 cout = cout s @ emit_at opts (idx s) 0 tys n\<rparr>"
      from Cons.prems(1) False call n have run: "scan opts tys P BB ?s = Inr s'" by simp
      from False Cons.prems(3) have k: "idx s < length tys" by simp
      from scan_args [OF run] Cons.prems(2)
      have "args s' = args s @ n # take (P - (idx s + 1)) (recovered_names BB)" by simp
      with Cons.prems(2)
      have d: "drop (idx s) (args s') = n # drop (Suc (idx s)) (args s')" by simp
      from k have t: "drop (idx s) tys = tys ! idx s # drop (Suc (idx s)) tys"
        by (simp add: Cons_nth_drop_Suc)
      from Cons.IH [OF run _ Cons.prems(3)] Cons.prems(2)
      have "cout s' = (cout s @ emit_at opts (idx s) 0 tys n) @
          concat (map2 (declare_symbolic opts) (drop (Suc (idx s)) tys) (drop (Suc (idx s)) (args s')))"
        by simp
      with d t emit_at_nth [OF k] show ?thesis by simp
    next
      case other: False
      with Cons.prems(1) False have "scan opts tys P BB s = Inr s'" by simp
      from Cons.IH [OF this Cons.prems(2,3)] show ?thesis .
    qed
  qed
qed

lemma scan_total:
  "well_formed_calls BB \<Longrightarrow> \<exists>s'. scan opts tys P BB s = Inr s'"
proof (induction BB arbitrary: s)
  case Nil
  then show ?case by (simp add: well_formed_calls_def)
next
  case (Cons I BB)
  then show ?case
    by (cases "variable_name I") (auto simp: recovered_name_def well_formed_calls_def)
qed

lemma call_arguments_under:
  "i + length as \<le> unsigned_pred P \<Longrightarrow>
     call_arguments P i as = concat (map (\<lambda>a. a @ '', '') as)"
  by (induction as arbitrary: i) auto

lemma call_arguments_exact:
  "as \<noteq> [] \<Longrightarrow> i + length as = unsigned_pred P + 1 \<Longrightarrow>
     call_arguments P i as = comma_separated as @ '');'' @ endl"
proof (induction as arbitrary: i rule: comma_separated.induct)
  case 1
  then show ?case by simp
next
  case (2 a)
  then show ?case by simp
next
  case (3 a b rest)
  from "3.prems" have "i < unsigned_pred P" by simp
  moreover from "3.prems" have "(i + 1) + length (b # rest) = unsigned_pred P + 1" by simp
  from "3.IH" [OF _ this] have "call_arguments P (i + 1) (b # rest) = comma_separated (b # rest) @ '');'' @ endl"
    by simp
  ultimately show ?case by simp
qed

lemma pointer_declaration:
  "declare_symbolic opts (PointerTy pointee) n =
     ''  char '' @ n @ ''['' @ signed_decimal (sint (ArraySize opts)) @ ''];'' @ endl @
     ''  klee_make_symbolic('' @ n @ '', sizeof('' @ n @ ''), '' @ dquote @ n @ dquote @ '');'' @ endl"
  by (simp add: declare_symbolic_def)

lemma scalar_declaration:
  "\<not> isPointerTy ty \<Longrightarrow>
   declare_symbolic opts ty n =
     ''  i'' @ decimal (if isIntegerTy ty then getIntegerBitWidth ty else 0) @ '' '' @ n @ '';'' @ endl @
     ''  klee_make_symbolic(&'' @ n @ '', sizeof('' @ n @ ''), '' @ dquote @ n @ dquote @ '');'' @ endl"
  by (simp add: declare_symbolic_def)

lemma scan_step:
  "isCallInst I \<Longrightarrow> variable_name I = Inr n \<Longrightarrow> idx s < P \<Longrightarrow> idx s < length tys \<Longrightarrow>
   scan opts tys P (I # rest) s =
     scan opts tys P rest
       \<lparr>idx = idx s + 1, args = args s @ [n],
        cout = cout s @ declare_symbolic opts (tys ! idx s) n\<rparr>"
  by (simp add: emit_at_nth)
lemma scan_failure_same:
  "idx s = idx t \<Longrightarrow> (scan opts tys P BB s = Inl e) = (scan opts' tys' P BB t = Inl e)"
proof (induction BB arbitrary: s t)
  case Nil
  then show ?case by simp
next
  case (Cons I BB)
  show ?case
  proof (cases "variable_name I")
    case (Inl e')
    with Cons.prems show ?thesis by (simp add: Cons.IH)
  next
    case (Inr n)
    have "(scan opts tys P BB
             \<lparr>idx = idx s + 1, args = args s @ [n], cout = cout s @ emit_at opts (idx s) 0 tys n\<rparr>
            = Inl e) =
          (scan opts' tys' P BB
             \<lparr>idx = idx t + 1, args = args t @ [n], cout = cout t @ emit_at opts' (idx t) 0 tys' n\<rparr>
            = Inl e)"
      by (rule Cons.IH) (simp add: Cons.prems)
    with Inr Cons.prems show ?thesis by (simp add: Cons.IH)
  qed
qed

lemma harness_failure_same: "(harness opts F = Inl e) = (harness opts' F = Inl e)"
proof (cases "BasicBlocks F")
  case Nil
  then show ?thesis by (simp add: harness_def getEntryBlock_def and_then_def)
next
  case (Cons BB others)
  let ?P = "to_unsigned (length (formals F))"
  have same: "(scan opts (formals F) ?P BB scan_start = Inl e) =
      (scan opts' (formals F) ?P BB scan_start = Inl e)"
    by (rule scan_failure_same) simp
  show ?thesis
  proof (cases "scan opts (formals F) ?P BB scan_start")
    case (Inl e1)
    show ?thesis
    proof (cases "scan opts' (formals F) ?P BB scan_start")
      case (Inl e2)
      have "(scan opts (formals F) ?P BB scan_start = Inl e1) =
        (scan opts' (formals F) ?P BB scan_start = Inl e1)"
        by (rule scan_failure_same) simp
      with \<open>scan opts (formals F) ?P BB scan_start = Inl e1\<close> Inl have "e2 = e1" by simp
      with Cons Inl \<open>scan opts (formals F) ?P BB scan_start = Inl e1\<close> show ?thesis
        by (simp add: harness_def getEntryBlock_def and_then_def)
    next
      case (Inr s2)
      have "(scan opts (formals F) ?P BB scan_start = Inl e1) =
        (scan opts' (formals F) ?P BB scan_start = Inl e1)"
        by (rule scan_failure_same) simp
      with \<open>scan opts (formals F) ?P BB scan_start = Inl e1\<close> Inr show ?thesis by simp
    qed
  next
    case (Inr s1)
    show ?thesis
    proof (cases "scan opts' (formals F) ?P BB scan_start")
      case (Inl e2)
      have "(scan opts (formals F) ?P BB scan_start = Inl e2) =
        (scan opts' (formals F) ?P BB scan_start = Inl e2)"
        by (rule scan_failure_same) simp
      with Inl Inr show ?thesis by simp
    next
      case (Inr s2)
      with Cons \<open>scan opts (formals F) ?P BB scan_start = Inr s1\<close> show ?thesis
        by (simp add: harness_def getEntryBlock_def and_then_def)
    qed
  qed
qed

lemma scan_append_stopped:
  "scan opts tys P BB s = Inr s' \<Longrightarrow> P \<le> idx s' \<Longrightarrow> scan opts tys P (BB @ later) s = Inr s'"
proof (induction BB arbitrary: s)
  case Nil
  then show ?case by (simp add: scan_stopped)
next
  case (Cons I BB)
  show ?case
  proof (cases "P \<le> idx s")
    case True
    with Cons.prems show ?thesis by simp
  next
    case False
    show ?thesis
    proof (cases "variable_name I")
      case (Inl e)
      with Cons.prems False have "\<not> isCallInst I" by auto
      with Cons.prems False Cons.IH [of s] show ?thesis by simp
    next
      case (Inr n)
      with Cons.prems False Cons.IH show ?thesis by (cases "isCallInst I") simp_all
    qed
  qed
qed

lemma scan_no_calls: "\<not> list_ex isCallInst BB \<Longrightarrow> scan opts tys P BB s = Inr s"
  by (induction BB) simp_all

lemma recovered_names_no_calls: "\<not> list_ex isCallInst BB \<Longrightarrow> recovered_names BB = []"
  by (induction BB) (simp_all add: recovered_names_Cons recovered_name_def recovered_names_def)

subsection \<open>The whole document\<close>

lemma harness_result:
  assumes "BasicBlocks F = BB # others" and "well_formed_calls BB"
    and "length (formals F) < 2 ^ 32"
  shows "harness opts F =
     Inr (preamble @
          concat (map2 (declare_symbolic opts) (formals F)
            (take (length (formals F)) (recovered_names BB))) @
          ''  '' @ FunctionName opts @ ''('' @
          call_arguments (length (formals F)) 0
            (take (length (formals F)) (recovered_names BB)) @
          epilogue)"
proof -
  let ?P = "length (formals F)"
  from scan_total [OF assms(2)] obtain s
    where run: "scan opts (formals F) ?P BB scan_start = Inr s" by blast
  have start: "idx scan_start = length (args scan_start)" by (simp add: scan_start_def)
  from scan_args [OF run start]
  have a: "args s = take ?P (recovered_names BB)" by (simp add: scan_start_def)
  from scan_cout [OF run start]
  have "cout s = concat (map2 (declare_symbolic opts) (formals F) (args s))"
    by (simp add: scan_start_def)
  with a run assms(1,3) show ?thesis
    by (simp add: harness_def Let_def getEntryBlock_def and_then_def to_unsigned_small)
qed

lemma harness_matching_records:
  assumes "BasicBlocks F = BB # others" and "well_formed_calls BB"
    and "length (recovered_names BB) = length (formals F)"
    and "0 < length (formals F)" and "length (formals F) < 2 ^ 32"
  shows "harness opts F =
     Inr (preamble @
          concat (map2 (declare_symbolic opts) (formals F) (recovered_names BB)) @
          ''  '' @ FunctionName opts @ ''('' @
          comma_separated (recovered_names BB) @ '');'' @ endl @
          epilogue)"
proof -
  from assms(3,4) have "recovered_names BB \<noteq> []" by auto
  moreover from assms(3,4,5)
  have "0 + length (recovered_names BB) = unsigned_pred (length (formals F)) + 1"
    by (simp add: unsigned_pred_pos)
  ultimately have "call_arguments (length (formals F)) 0 (recovered_names BB) =
      comma_separated (recovered_names BB) @ '');'' @ endl"
    by (rule call_arguments_exact)
  with harness_result [OF assms(1,2,5), of opts] assms(3) show ?thesis by simp
qed

lemma undercount_call_line:
  assumes "length names < P" and "P < 2 ^ 32"
  shows "call_arguments P 0 names = concat (map (\<lambda>a. a @ '', '') names)"
proof -
  from assms have "0 + length names \<le> unsigned_pred P" by (simp add: unsigned_pred_pos)
  then show ?thesis by (rule call_arguments_under)
qed

lemma concat_map2_split:
  assumes "k < length xs" and "k < length ys"
  shows "concat (map2 f xs ys) =
     concat (map2 f (take k xs) (take k ys)) @ f (xs ! k) (ys ! k) @
     concat (map2 f (drop (Suc k) xs) (drop (Suc k) ys))"
proof -
  from assms have k: "k < length (zip xs ys)" by simp
  have "zip xs ys = take k (zip xs ys) @ (zip xs ys ! k) # drop (Suc k) (zip xs ys)"
    by (rule id_take_nth_drop [OF k])
  also have "\<dots> = zip (take k xs) (take k ys) @ (xs ! k, ys ! k) #
      zip (drop (Suc k) xs) (drop (Suc k) ys)"
    using assms by (simp add: take_zip drop_zip)
  finally have "map2 f xs ys =
      map2 f (take k xs) (take k ys) @ f (xs ! k) (ys ! k) #
      map2 f (drop (Suc k) xs) (drop (Suc k) ys)"
    by (metis (no_types, lifting) case_prod_conv list.simps(9) map_append)
  then show ?thesis by simp
qed

lemma harness_result_prefix:
  assumes "BasicBlocks F = (pre @ post) # others" and "well_formed_calls pre"
    and "post = [] \<or> length (formals F) \<le> length (recovered_names pre)"
    and "length (formals F) < 2 ^ 32"
  shows "harness opts F =
     Inr (preamble @
          concat (map2 (declare_symbolic opts) (formals F)
            (take (length (formals F)) (recovered_names pre))) @
          ''  '' @ FunctionName opts @ ''('' @
          call_arguments (length (formals F)) 0
            (take (length (formals F)) (recovered_names pre)) @
          epilogue)"
proof -
  let ?P = "length (formals F)"
  from scan_total [OF assms(2)] obtain s
    where pre: "scan opts (formals F) ?P pre scan_start = Inr s" by blast
  have start: "idx scan_start = length (args scan_start)" by (simp add: scan_start_def)
  from scan_args [OF pre start]
  have a: "args s = take ?P (recovered_names pre)" and i: "idx s = length (args s)"
    by (simp_all add: scan_start_def)
  have run: "scan opts (formals F) ?P (pre @ post) scan_start = Inr s"
  proof (cases "post = []")
    case True
    with pre show ?thesis by simp
  next
    case False
    with assms(3) a i have "?P \<le> idx s" by simp
    with pre show ?thesis by (rule scan_append_stopped)
  qed
  from scan_cout [OF pre start]
  have "cout s = concat (map2 (declare_symbolic opts) (formals F) (args s))"
    by (simp add: scan_start_def)
  with a run assms(1,4) show ?thesis
    by (simp add: harness_def Let_def getEntryBlock_def and_then_def to_unsigned_small)
qed

lemma harness_declaration_at:
  assumes "BasicBlocks F = (pre @ post) # others" and "well_formed_calls pre"
    and "post = [] \<or> length (formals F) \<le> length (recovered_names pre)"
    and "length (formals F) < 2 ^ 32"
    and "k < length (formals F)" and "k < length (recovered_names pre)"
  shows "harness opts F =
     Inr (preamble @
          concat (map2 (declare_symbolic opts) (take k (formals F))
            (take k (recovered_names pre))) @
          declare_symbolic opts (formals F ! k) (recovered_names pre ! k) @
          concat (map2 (declare_symbolic opts) (drop (Suc k) (formals F))
            (drop (Suc k) (take (length (formals F)) (recovered_names pre)))) @
          ''  '' @ FunctionName opts @ ''('' @
          call_arguments (length (formals F)) 0
            (take (length (formals F)) (recovered_names pre)) @
          epilogue)"
proof -
  let ?P = "length (formals F)"
  let ?names = "take ?P (recovered_names pre)"
  from assms(5,6) have k: "k < length ?names" by simp
  from assms(5) have "take k ?names = take k (recovered_names pre)"
    by (simp add: min_def)
  moreover from assms(5) have "?names ! k = recovered_names pre ! k" by simp
  ultimately have "concat (map2 (declare_symbolic opts) (formals F) ?names) =
      concat (map2 (declare_symbolic opts) (take k (formals F)) (take k (recovered_names pre))) @
      declare_symbolic opts (formals F ! k) (recovered_names pre ! k) @
      concat (map2 (declare_symbolic opts) (drop (Suc k) (formals F)) (drop (Suc k) ?names))"
    using concat_map2_split [OF assms(5) k, of "declare_symbolic opts"] by simp
  with harness_result_prefix [OF assms(1-4), of opts] show ?thesis by simp
qed

lemma harness_integer_declaration:
  assumes "BasicBlocks F = (pre @ post) # others" and "well_formed_calls pre"
    and "post = [] \<or> length (formals F) \<le> length (recovered_names pre)"
    and "length (formals F) < 2 ^ 32"
    and "k < length (formals F)" and "k < length (recovered_names pre)"
    and "formals F ! k = IntegerTy W"
  shows "harness opts F =
     Inr (preamble @
          concat (map2 (declare_symbolic opts) (take k (formals F))
            (take k (recovered_names pre))) @
          ''  i'' @ decimal W @ '' '' @ recovered_names pre ! k @ '';'' @ endl @
          ''  klee_make_symbolic(&'' @ recovered_names pre ! k @ '', sizeof('' @
            recovered_names pre ! k @ ''), '' @
            dquote @ recovered_names pre ! k @ dquote @ '');'' @ endl @
          concat (map2 (declare_symbolic opts) (drop (Suc k) (formals F))
            (drop (Suc k) (take (length (formals F)) (recovered_names pre)))) @
          ''  '' @ FunctionName opts @ ''('' @
          call_arguments (length (formals F)) 0
            (take (length (formals F)) (recovered_names pre)) @
          epilogue)"
  using harness_declaration_at [OF assms(1-6), of opts] assms(7)
  by (simp add: scalar_declaration)

lemma alias_bytes_preamble:
  "W \<in> {8, 16, 32, 64} \<Longrightarrow> alias_bytes preamble (''i'' @ decimal W) = Some (W div 8)"
  by (auto simp: alias_bytes_def defines_of_preamble stdint_sizeof_def decimal.simps digit_def)

text \<open>
  Every block the scan reads without a failure splits into the part it reads, whose
  calls are all records, and a rest that it reaches only with every parameter bound.
\<close>

lemma scan_returned_split:
  "scan opts tys P BB s = Inr s' \<Longrightarrow>
     \<exists>pre post. BB = pre @ post \<and> well_formed_calls pre \<and>
       (post = [] \<or> P \<le> idx s + length (recovered_names pre))"
proof (induction BB arbitrary: s)
  case Nil
  have "[] = [] @ ([] :: instruction list) \<and> well_formed_calls [] \<and>
      (([] :: instruction list) = [] \<or> P \<le> idx s + length (recovered_names []))"
    by (simp add: well_formed_calls_def)
  then show ?case by blast
next
  case (Cons I BB)
  show ?case
  proof (cases "P \<le> idx s")
    case True
    then have "I # BB = [] @ (I # BB) \<and> well_formed_calls [] \<and>
        (I # BB = [] \<or> P \<le> idx s + length (recovered_names []))"
      by (simp add: well_formed_calls_def recovered_names_def)
    then show ?thesis by blast
  next
    case False
    show ?thesis
    proof (cases "isCallInst I")
      case call: True
      from Cons.prems False call obtain n where n: "variable_name I = Inr n"
        by (cases "variable_name I") auto
      let ?s = "\<lparr>idx = idx s + 1, args = args s @ [n],
                 cout = cout s @ emit_at opts (idx s) 0 tys n\<rparr>"
      from Cons.prems False call n have "scan opts tys P BB ?s = Inr s'" by simp
      from Cons.IH [OF this] obtain pre post where split: "BB = pre @ post"
        and wf: "well_formed_calls pre"
        and stop: "post = [] \<or> P \<le> idx ?s + length (recovered_names pre)" by blast
      from call n have name: "recovered_name I = Some n" by (simp add: recovered_name_def)
      from split have "I # BB = (I # pre) @ post" by simp
      moreover from wf name have "well_formed_calls (I # pre)"
        by (simp add: well_formed_calls_def)
      moreover from stop name
      have "post = [] \<or> P \<le> idx s + length (recovered_names (I # pre))"
        by (auto simp: recovered_names_Cons)
      ultimately show ?thesis by blast
    next
      case other: False
      with Cons.prems False have "scan opts tys P BB s = Inr s'" by simp
      from Cons.IH [OF this] obtain pre post where split: "BB = pre @ post"
        and wf: "well_formed_calls pre"
        and stop: "post = [] \<or> P \<le> idx s + length (recovered_names pre)" by blast
      from other have name: "recovered_name I = None" by (simp add: recovered_name_def)
      from split have "I # BB = (I # pre) @ post" by simp
      moreover from wf other have "well_formed_calls (I # pre)"
        by (simp add: well_formed_calls_def)
      moreover from stop name
      have "post = [] \<or> P \<le> idx s + length (recovered_names (I # pre))"
        by (auto simp: recovered_names_Cons)
      ultimately show ?thesis by blast
    qed
  qed
qed

lemma scan_written_returned:
  "scan opts tys P BB s = Inr s' \<Longrightarrow> scan_written opts tys P BB s = cout s'"
  by (induction BB arbitrary: s) (auto split: if_splits sum.splits)

lemma only_debug_calls_names:
  "only_debug_calls BB \<Longrightarrow>
     well_formed_calls BB \<and> recovered_names BB = List.map_filter debug_record_name BB"
proof (induction BB)
  case Nil
  show ?case by (simp add: well_formed_calls_def recovered_names_def)
next
  case (Cons I BB)
  from Cons.prems have rest: "only_debug_calls BB"
    and this_one: "\<not> isCallInst I \<or> debug_record_name I \<noteq> None"
    by (simp_all add: only_debug_calls_def)
  from this_one have same: "recovered_name I = debug_record_name I"
    by (auto simp: debug_record_name_def recovered_name_def)
  from this_one same have "\<not> isCallInst I \<or> recovered_name I \<noteq> None" by simp
  with Cons.IH [OF rest] same show ?case
    by (auto simp: well_formed_calls_def recovered_names_def split: option.splits)
qed

lemma scan_bindings:
  "(scan opts tys P BB scan_start = Inr s \<longrightarrow>
      args s = take P (recovered_names BB) \<and> idx s = length (args s) \<and> length (args s) \<le> P
      \<and> (P \<le> length tys \<longrightarrow> cout s = concat (map2 (declare_symbolic opts) tys (args s)))
      \<and> (length (args s) = P \<longrightarrow> scan opts tys P (BB @ later) scan_start = Inr s))
   \<and> (well_formed_calls BB \<longrightarrow> (\<exists>s'. scan opts tys P BB scan_start = Inr s'))
   \<and> (only_debug_calls BB \<longrightarrow>
        (\<exists>s'. scan opts tys P BB scan_start = Inr s' \<and>
              args s' = take P (List.map_filter debug_record_name BB)))
   \<and> (\<not> list_ex isCallInst BB \<longrightarrow>
        scan opts tys P BB scan_start = Inr scan_start \<and> args scan_start = [])"
proof (intro conjI impI)
  assume run: "scan opts tys P BB scan_start = Inr s"
  have start: "idx scan_start = length (args scan_start)" by (simp add: scan_start_def)
  from scan_args [OF run start]
  show a: "args s = take P (recovered_names BB)" and i: "idx s = length (args s)"
    by (simp_all add: scan_start_def)
  from a show "length (args s) \<le> P" by simp
  {
    assume "P \<le> length tys"
    from scan_cout [OF run start this]
    show "cout s = concat (map2 (declare_symbolic opts) tys (args s))"
      by (simp add: scan_start_def)
  }
  {
    assume "length (args s) = P"
    with i have "P \<le> idx s" by simp
    with run show "scan opts tys P (BB @ later) scan_start = Inr s"
      by (rule scan_append_stopped)
  }
next
  assume "well_formed_calls BB"
  then show "\<exists>s'. scan opts tys P BB scan_start = Inr s'" by (rule scan_total)
next
  assume "only_debug_calls BB"
  then have wf: "well_formed_calls BB"
    and names: "recovered_names BB = List.map_filter debug_record_name BB"
    by (simp_all add: only_debug_calls_names)
  from scan_total [OF wf] obtain s' where run: "scan opts tys P BB scan_start = Inr s'"
    by blast
  have "idx scan_start = length (args scan_start)" by (simp add: scan_start_def)
  from scan_args [OF run this] names
  have "args s' = take P (List.map_filter debug_record_name BB)"
    by (simp add: scan_start_def)
  with run show "\<exists>s'. scan opts tys P BB scan_start = Inr s' \<and>
      args s' = take P (List.map_filter debug_record_name BB)"
    by blast
next
  assume "\<not> list_ex isCallInst BB"
  then show "scan opts tys P BB scan_start = Inr scan_start" by (rule scan_no_calls)
next
  show "args scan_start = []" by (simp add: scan_start_def)
qed

section \<open>The claims\<close>

subsection \<open>Representation of pointer parameters\<close>

text \<open>
  Claim C5. Take a function whose entry block is read by the scan without a failure:
  the part of the block that holds the calls the scan reads consists of records, and
  what follows it, if anything, comes after as many records as there are parameters
  (by \<open>scan_returned_split\<close>, every block read without a failure is of this form).
  For every bound parameter of pointer type, whatever its pointee, the document written
  holds, at the place of that parameter among the declarations, the declaration of a
  \<^verbatim>\<open>char\<close> buffer under the recovered name whose extent is the text of the
  buffer-size option, followed by the symbolization call with the buffer name,
  \<^verbatim>\<open>sizeof\<close> of it and the name as a quoted label. The text of the extent denotes
  the option's value. The option is the value given with \<^verbatim>\<open>-s\<close>, and 1024,
  printed as \<^verbatim>\<open>1024\<close>, when none is given.
\<close>

theorem pointer_parameter_buffer:
  assumes "BasicBlocks F = (pre @ post) # others" and "well_formed_calls pre"
    and "post = [] \<or> length (formals F) \<le> length (recovered_names pre)"
    and "length (formals F) < 2 ^ 32"
    and "k < length (formals F)" and "k < length (recovered_names pre)"
    and "formals F ! k = PointerTy pointee"
  shows "harness opts F =
     Inr (preamble @
          concat (map2 (declare_symbolic opts) (take k (formals F))
            (take k (recovered_names pre))) @
          ''  char '' @ recovered_names pre ! k @ ''['' @
            signed_decimal (sint (ArraySize opts)) @ ''];'' @ endl @
          ''  klee_make_symbolic('' @ recovered_names pre ! k @ '', sizeof('' @
            recovered_names pre ! k @ ''), '' @
            dquote @ recovered_names pre ! k @ dquote @ '');'' @ endl @
          concat (map2 (declare_symbolic opts) (drop (Suc k) (formals F))
            (drop (Suc k) (take (length (formals F)) (recovered_names pre)))) @
          ''  '' @ FunctionName opts @ ''('' @
          call_arguments (length (formals F)) 0
            (take (length (formals F)) (recovered_names pre)) @
          epilogue)
     \<and> signed_value (signed_decimal (sint (ArraySize opts))) = sint (ArraySize opts)
     \<and> ArraySize (ParseCommandLineOptions c) =
         (case option_s c of None \<Rightarrow> 1024 | Some v \<Rightarrow> v)
     \<and> signed_decimal (sint (1024 :: 32 word)) = ''1024''"
proof -
  have "signed_decimal (sint (1024 :: 32 word)) = ''1024''"
    by (simp add: signed_decimal_def decimal.simps digit_def)
  with harness_declaration_at [OF assms(1-6), of opts] assms(7) show ?thesis
    by (simp add: pointer_declaration signed_value_signed_decimal
        ParseCommandLineOptions_def cl_init_def)
qed

theorem pointer_parameter_buffer_witness:
  "well_formed_calls [OtherInst, OtherInst, dbg_declare ''buf''] \<and>
   harness (ParseCommandLineOptions (plain_command ''fill.bc'' ''fill''))
     \<lparr>function_name = ''fill'', formals = [PointerTy (IntegerTy 8)],
      BasicBlocks = [[OtherInst, OtherInst, dbg_declare ''buf''] @
                     [CallInst ''memset'' [OtherValue, OtherValue, OtherValue], OtherInst]]\<rparr> =
   Inr (preamble @
        ''  char buf[1024];'' @ endl @
        ''  klee_make_symbolic(buf, sizeof(buf), '' @ dquote @ ''buf'' @ dquote @ '');'' @ endl @
        ''  fill(buf);'' @ endl @
        epilogue)"
proof -
  let ?pre = "[OtherInst, OtherInst, dbg_declare ''buf'']"
  let ?post = "[CallInst ''memset'' [OtherValue, OtherValue, OtherValue], OtherInst]"
  let ?F = "\<lparr>function_name = ''fill'', formals = [PointerTy (IntegerTy 8)],
      BasicBlocks = [?pre @ ?post]\<rparr>"
  let ?c = "plain_command ''fill.bc'' ''fill''"
  have name: "recovered_name (dbg_declare ''buf'') = Some ''buf''"
    by (simp add: recovered_name_def dbg_declare_def variable_name_def getOperand_def
        and_then_def)
  have other: "recovered_name OtherInst = None" by (simp add: recovered_name_def)
  have names: "recovered_names ?pre = [''buf'']"
    by (simp add: recovered_names_Cons name other recovered_names_def)
  have h1: "BasicBlocks ?F = (?pre @ ?post) # []" by simp
  have h2: "well_formed_calls ?pre" by (simp add: well_formed_calls_def name other)
  have h3: "?post = [] \<or> length (formals ?F) \<le> length (recovered_names ?pre)"
    by (simp add: names)
  have h4: "length (formals ?F) < 2 ^ 32" by simp
  have h5: "0 < length (formals ?F)" by simp
  have h6: "0 < length (recovered_names ?pre)" by (simp add: names)
  have h7: "formals ?F ! 0 = PointerTy (IntegerTy 8)" by simp
  note t = pointer_parameter_buffer [where opts = "ParseCommandLineOptions ?c" and c = ?c,
      OF h1 h2 h3 h4 h5 h6 h7]
  have size: "ArraySize (ParseCommandLineOptions ?c) = 1024"
    and fname: "FunctionName (ParseCommandLineOptions ?c) = ''fill''"
    by (simp_all add: ParseCommandLineOptions_def plain_command_def cl_init_def)
  from t have "signed_decimal (sint (1024 :: 32 word)) = ''1024''" by blast
  then have printed: "signed_decimal 1024 = ''1024''" by simp
  from t [THEN conjunct1] h2 show ?thesis
    by (simp add: names size fname printed unsigned_pred_def)
qed

subsection \<open>The target triple\<close>

text \<open>
  Claim C9. Processing a module leaves it with its target triple replaced by the value
  of the target-triple option and with every other field as it was, whether or not the
  function is found and the harness is written. Without \<^verbatim>\<open>-t\<close> on the command
  line the option is \<^verbatim>\<open>x86_64-pc-linux-gnu\<close>, so the module's own triple is
  lost in every run.
\<close>

theorem target_triple_overwritten:
  "fst (process_module opts M) = M\<lparr>module_triple := TargetTriple opts\<rparr>
   \<and> TargetTriple (ParseCommandLineOptions (c\<lparr>option_t := None\<rparr>)) = ''x86_64-pc-linux-gnu''
   \<and> module_triple (fst (process_module (ParseCommandLineOptions (c\<lparr>option_t := None\<rparr>)) M))
       = ''x86_64-pc-linux-gnu''"
  by (simp add: process_module_def setTargetTriple_def ParseCommandLineOptions_def cl_init_def Let_def)

subsection \<open>The buffer size is not validated\<close>

text \<open>
  Claim C10. The buffer-size option is a signed 32-bit integer that command-line parsing
  hands over as given. When its value is zero or negative and the entry block is read
  without a failure, the harness is written all the same, and the declaration of every
  bound pointer parameter in it carries that value as its array extent: the printed
  extent reads back as the option's value, which is not positive. No failure comes from
  the value: on any function the harness fails with it exactly when it fails with the
  default 1024.
\<close>

theorem buffer_size_not_validated:
  assumes "sint (ArraySize opts) \<le> 0"
    and "BasicBlocks F = (pre @ post) # others" and "well_formed_calls pre"
    and "post = [] \<or> length (formals F) \<le> length (recovered_names pre)"
    and "length (formals F) < 2 ^ 32"
    and "k < length (formals F)" and "k < length (recovered_names pre)"
    and "formals F ! k = PointerTy pointee"
  shows "harness opts F =
     Inr (preamble @
          concat (map2 (declare_symbolic opts) (take k (formals F))
            (take k (recovered_names pre))) @
          ''  char '' @ recovered_names pre ! k @ ''['' @
            signed_decimal (sint (ArraySize opts)) @ ''];'' @ endl @
          ''  klee_make_symbolic('' @ recovered_names pre ! k @ '', sizeof('' @
            recovered_names pre ! k @ ''), '' @
            dquote @ recovered_names pre ! k @ dquote @ '');'' @ endl @
          concat (map2 (declare_symbolic opts) (drop (Suc k) (formals F))
            (drop (Suc k) (take (length (formals F)) (recovered_names pre)))) @
          ''  '' @ FunctionName opts @ ''('' @
          call_arguments (length (formals F)) 0
            (take (length (formals F)) (recovered_names pre)) @
          epilogue)
     \<and> signed_value (signed_decimal (sint (ArraySize opts))) = sint (ArraySize opts)
     \<and> signed_value (signed_decimal (sint (ArraySize opts))) \<le> 0
     \<and> (harness opts G = Inl e) = (harness (opts\<lparr>ArraySize := 1024\<rparr>) G = Inl e)
     \<and> ArraySize (ParseCommandLineOptions c) =
         (case option_s c of None \<Rightarrow> 1024 | Some v \<Rightarrow> v)"
proof -
  have "(harness opts G = Inl e) = (harness (opts\<lparr>ArraySize := 1024\<rparr>) G = Inl e)"
    by (rule harness_failure_same)
  with harness_declaration_at [OF assms(2-7), of opts] assms(1,8) show ?thesis
    by (simp add: pointer_declaration signed_value_signed_decimal
        ParseCommandLineOptions_def cl_init_def)
qed

theorem buffer_size_not_validated_witness:
  "sint (ArraySize (ParseCommandLineOptions
       ((plain_command ''fill.bc'' ''fill'')\<lparr>option_s := Some (- 5)\<rparr>))) \<le> 0 \<and>
   harness (ParseCommandLineOptions
       ((plain_command ''fill.bc'' ''fill'')\<lparr>option_s := Some (- 5)\<rparr>))
     \<lparr>function_name = ''fill'', formals = [PointerTy (IntegerTy 8), IntegerTy 32],
      BasicBlocks = [[dbg_declare ''buf'', dbg_declare ''n'', OtherInst]]\<rparr> =
   Inr (preamble @
        ''  char buf[-5];'' @ endl @
        ''  klee_make_symbolic(buf, sizeof(buf), '' @ dquote @ ''buf'' @ dquote @ '');'' @ endl @
        ''  i32 n;'' @ endl @
        ''  klee_make_symbolic(&n, sizeof(n), '' @ dquote @ ''n'' @ dquote @ '');'' @ endl @
        ''  fill(buf, n);'' @ endl @
        epilogue)"
proof -
  let ?pre = "[dbg_declare ''buf'', dbg_declare ''n'', OtherInst]"
  let ?F = "\<lparr>function_name = ''fill'', formals = [PointerTy (IntegerTy 8), IntegerTy 32],
      BasicBlocks = [?pre]\<rparr>"
  let ?c = "(plain_command ''fill.bc'' ''fill'')\<lparr>option_s := Some (- 5 :: 32 word)\<rparr>"
  have name: "\<And>v. recovered_name (dbg_declare v) = Some v"
    by (simp add: recovered_name_def dbg_declare_def variable_name_def getOperand_def
        and_then_def)
  have other: "recovered_name OtherInst = None" by (simp add: recovered_name_def)
  have names: "recovered_names ?pre = [''buf'', ''n'']"
    by (simp add: recovered_names_Cons name other recovered_names_def)
  have size: "ArraySize (ParseCommandLineOptions ?c) = - 5"
    and fname: "FunctionName (ParseCommandLineOptions ?c) = ''fill''"
    by (simp_all add: ParseCommandLineOptions_def plain_command_def cl_init_def)
  have h0: "sint (ArraySize (ParseCommandLineOptions ?c)) \<le> 0" by (simp add: size)
  have h1: "BasicBlocks ?F = (?pre @ []) # []" by simp
  have h2: "well_formed_calls ?pre" by (simp add: well_formed_calls_def name other)
  have h3: "[] = ([] :: instruction list) \<or> length (formals ?F) \<le> length (recovered_names ?pre)"
    by simp
  have h4: "length (formals ?F) < 2 ^ 32" by simp
  have h5: "0 < length (formals ?F)" by simp
  have h6: "0 < length (recovered_names ?pre)" by (simp add: names)
  have h7: "formals ?F ! 0 = PointerTy (IntegerTy 8)" by simp
  note t = buffer_size_not_validated [where opts = "ParseCommandLineOptions ?c" and c = ?c
      and G = ?F and e = CastFailed, OF h0 h1 h2 h3 h4 h5 h6 h7]
  have printed: "signed_decimal (- 5) = ''-5''"
    by (simp add: signed_decimal_def decimal.simps digit_def)
  from t [THEN conjunct1] h0 show ?thesis
    by (simp add: names size fname printed unsigned_pred_def declare_symbolic_def
        decimal.simps digit_def)
qed

subsection \<open>Representation of integer parameters\<close>

text \<open>
  Claim C6, at the input where the code departs from it. A function with a 32-bit and a
  128-bit integer parameter: the document declares them with the aliases
  \<^verbatim>\<open>i32\<close> and \<^verbatim>\<open>i128\<close>. The document defines \<^verbatim>\<open>i32\<close> as
  \<^verbatim>\<open>int32_t\<close>, of 4 bytes, but \<^verbatim>\<open>i128\<close> as \<^verbatim>\<open>int128_t\<close> (line 182),
  which \<^verbatim>\<open><stdint.h>\<close> does not declare: the type of the 128-bit variable has no
  size, and the byte extent of its symbolization call is not 16.
  (For the widths 8, 16, 32 and 64, \<open>harness_integer_declaration\<close> and
  \<open>alias_bytes_preamble\<close> give the declaration and the extent the claim describes.)
\<close>

theorem i128_alias_undeclared:
  "harness (ParseCommandLineOptions (plain_command ''f.bc'' ''f''))
     \<lparr>function_name = ''f'', formals = [IntegerTy 32, IntegerTy 128],
      BasicBlocks = [[dbg_declare ''a'', dbg_declare ''x'', OtherInst]]\<rparr> =
   Inr (preamble @
        ''  i32 a;'' @ endl @
        ''  klee_make_symbolic(&a, sizeof(a), '' @ dquote @ ''a'' @ dquote @ '');'' @ endl @
        ''  i128 x;'' @ endl @
        ''  klee_make_symbolic(&x, sizeof(x), '' @ dquote @ ''x'' @ dquote @ '');'' @ endl @
        ''  f(a, x);'' @ endl @
        epilogue)
   \<and> map_of (defines_of (projr (harness (ParseCommandLineOptions (plain_command ''f.bc'' ''f''))
         \<lparr>function_name = ''f'', formals = [IntegerTy 32, IntegerTy 128],
          BasicBlocks = [[dbg_declare ''a'', dbg_declare ''x'', OtherInst]]\<rparr>))) ''i128''
       = Some ''int128_t''
   \<and> stdint_sizeof ''int128_t'' = None
   \<and> alias_bytes (projr (harness (ParseCommandLineOptions (plain_command ''f.bc'' ''f''))
         \<lparr>function_name = ''f'', formals = [IntegerTy 32, IntegerTy 128],
          BasicBlocks = [[dbg_declare ''a'', dbg_declare ''x'', OtherInst]]\<rparr>)) ''i128''
       = None
   \<and> alias_bytes (projr (harness (ParseCommandLineOptions (plain_command ''f.bc'' ''f''))
         \<lparr>function_name = ''f'', formals = [IntegerTy 32, IntegerTy 128],
          BasicBlocks = [[dbg_declare ''a'', dbg_declare ''x'', OtherInst]]\<rparr>)) ''i32''
       = Some 4"
proof -
  let ?h = "harness (ParseCommandLineOptions (plain_command ''f.bc'' ''f''))
     \<lparr>function_name = ''f'', formals = [IntegerTy 32, IntegerTy 128],
      BasicBlocks = [[dbg_declare ''a'', dbg_declare ''x'', OtherInst]]\<rparr>"
  let ?doc = "preamble @
        ''  i32 a;'' @ endl @
        ''  klee_make_symbolic(&a, sizeof(a), '' @ dquote @ ''a'' @ dquote @ '');'' @ endl @
        ''  i128 x;'' @ endl @
        ''  klee_make_symbolic(&x, sizeof(x), '' @ dquote @ ''x'' @ dquote @ '');'' @ endl @
        ''  f(a, x);'' @ endl @
        epilogue"
  have run: "?h = Inr ?doc"
    by (simp add: harness_def getEntryBlock_def and_then_def scan_start_def to_unsigned_def
      unsigned_pred_def variable_name_def getOperand_def dbg_declare_def
      declare_symbolic_def decimal.simps digit_def ParseCommandLineOptions_def
      plain_command_def cl_init_def)
  have defs: "defines_of ?doc =
     [(''i8'', ''int8_t''), (''i16'', ''int16_t''), (''i32'', ''int32_t''),
      (''i64'', ''int64_t''), (''i128'', ''int128_t'')]"
    by code_simp
  have none: "stdint_sizeof ''int128_t'' = None" by (simp add: stdint_sizeof_def)
  have four: "stdint_sizeof ''int32_t'' = Some 4" by (simp add: stdint_sizeof_def)
  show ?thesis
    unfolding run sum.sel alias_bytes_def defs
    using none four by simp
qed

subsection \<open>Types that are neither pointers nor recognized integers\<close>

text \<open>
  Claim C4, as the code has it. Representation selection never fails. At a record bound
  to a parameter that is not a pointer, the scan writes a declaration with the alias
  \<^verbatim>\<open>i\<close>\<open>W\<close>, where \<open>W\<close> is the bit width of an integer type, of any width, and 0
  for every other type, writes the symbolization call, and goes on with the next
  instruction. Whether the scan fails does not depend on the types of the parameters.
\<close>

theorem fallback_declaration:
  assumes "isCallInst I" and "variable_name I = Inr n" and "idx s < P"
    and "idx s < length tys" and "\<not> isPointerTy (tys ! idx s)"
  shows "scan opts tys P (I # rest) s =
           scan opts tys P rest
             \<lparr>idx = idx s + 1, args = args s @ [n],
              cout = cout s @
                ''  i'' @ decimal (case tys ! idx s of IntegerTy W \<Rightarrow> W | _ \<Rightarrow> 0) @
                  '' '' @ n @ '';'' @ endl @
                ''  klee_make_symbolic(&'' @ n @ '', sizeof('' @ n @ ''), '' @
                  dquote @ n @ dquote @ '');'' @ endl\<rparr>
         \<and> (scan opts tys P BB t = Inl e) = (scan opts tys' P BB t = Inl e)"
proof -
  have "(if isIntegerTy (tys ! idx s) then getIntegerBitWidth (tys ! idx s) else 0) =
      (case tys ! idx s of IntegerTy W \<Rightarrow> W | _ \<Rightarrow> 0)"
    by (cases "tys ! idx s") simp_all
  with assms have "scan opts tys P (I # rest) s =
           scan opts tys P rest
             \<lparr>idx = idx s + 1, args = args s @ [n],
              cout = cout s @
                ''  i'' @ decimal (case tys ! idx s of IntegerTy W \<Rightarrow> W | _ \<Rightarrow> 0) @
                  '' '' @ n @ '';'' @ endl @
                ''  klee_make_symbolic(&'' @ n @ '', sizeof('' @ n @ ''), '' @
                  dquote @ n @ dquote @ '');'' @ endl\<rparr>"
    by (simp add: scan_step scalar_declaration del: scan.simps)
  moreover have "(scan opts tys P BB t = Inl e) = (scan opts tys' P BB t = Inl e)"
    by (rule scan_failure_same) simp
  ultimately show ?thesis by blast
qed


theorem fallback_declaration_witness:
  "isCallInst (dbg_declare ''x'') \<and> variable_name (dbg_declare ''x'') = Inr ''x'' \<and>
   \<not> isPointerTy ([FloatTy] ! 0) \<and>
   scan (ParseCommandLineOptions (plain_command ''f.bc'' ''f'')) [FloatTy] 1
       [dbg_declare ''x''] scan_start =
     Inr \<lparr>idx = 1, args = [''x''],
          cout = ''  i0 x;'' @ endl @
            ''  klee_make_symbolic(&x, sizeof(x), '' @ dquote @ ''x'' @ dquote @ '');'' @ endl\<rparr>"
proof -
  have h1: "isCallInst (dbg_declare ''x'')" by (simp add: dbg_declare_def)
  have h2: "variable_name (dbg_declare ''x'') = Inr ''x''"
    by (simp add: dbg_declare_def variable_name_def getOperand_def and_then_def)
  have h3: "idx scan_start < 1" by (simp add: scan_start_def)
  have h4: "idx scan_start < length [FloatTy]" by (simp add: scan_start_def)
  have h5: "\<not> isPointerTy ([FloatTy] ! idx scan_start)" by (simp add: scan_start_def)
  note t = fallback_declaration [where rest = "[]"
      and opts = "ParseCommandLineOptions (plain_command ''f.bc'' ''f'')",
      OF h1 h2 h3 h4 h5, THEN conjunct1]
  have printed: "decimal 0 = ''0''" by (simp add: decimal.simps digit_def)
  from t printed h1 h2 show ?thesis by (simp add: scan_start_def)
qed

theorem fallback_declaration_counterexample:
  "harness (ParseCommandLineOptions (plain_command ''f.bc'' ''f''))
     \<lparr>function_name = ''f'', formals = [FloatTy, IntegerTy 7],
      BasicBlocks = [[dbg_declare ''x'', OtherInst, dbg_value ''y'']]\<rparr> =
   Inr (preamble @
        ''  i0 x;'' @ endl @
        ''  klee_make_symbolic(&x, sizeof(x), '' @ dquote @ ''x'' @ dquote @ '');'' @ endl @
        ''  i7 y;'' @ endl @
        ''  klee_make_symbolic(&y, sizeof(y), '' @ dquote @ ''y'' @ dquote @ '');'' @ endl @
        ''  f(x, y);'' @ endl @
        epilogue)"
  by (simp add: harness_def getEntryBlock_def and_then_def scan_start_def to_unsigned_def
      unsigned_pred_def variable_name_def getOperand_def dbg_declare_def dbg_value_def
      declare_symbolic_def decimal.simps digit_def ParseCommandLineOptions_def
      plain_command_def cl_init_def)

subsection \<open>The binding scan\<close>

text \<open>
  Claim C8, at the input where the code departs from it. An entry block without a call
  to a debug intrinsic has no qualifying record, and the claim gives it an empty
  binding list. The scan takes every call for a record. With a parameter to bind, on
  the ordinary call \<^verbatim>\<open>foo(x, 1)\<close> it fails at the cast and returns no binding list,
  and on a call to another intrinsic with a variable as operand 1 it makes a binding;
  only a block without any call is scanned to the end with an empty list. This is the
  defect of claim C2. (On the records the scan itself recognises, \<open>scan_bindings\<close>
  gives the order, the bound and the stop that the claim describes.)
\<close>

theorem scan_without_debug_records:
  "\<not> list_ex is_debug_intrinsic_call [CallInst ''foo'' [OtherValue, OtherValue], OtherInst]
   \<and> scan (ParseCommandLineOptions (plain_command ''f.bc'' ''f'')) [IntegerTy 32] 1
       [CallInst ''foo'' [OtherValue, OtherValue], OtherInst] scan_start
     = Inl CastFailed
   \<and> \<not> list_ex is_debug_intrinsic_call
       [CallInst ''llvm.dbg.addr''
          [MetadataAsValue ValueAsMetadata, MetadataAsValue (DILocalVariable ''tmp''),
           MetadataAsValue DIExpression],
        OtherInst]
   \<and> scan (ParseCommandLineOptions (plain_command ''f.bc'' ''f'')) [IntegerTy 32] 1
       [CallInst ''llvm.dbg.addr''
          [MetadataAsValue ValueAsMetadata, MetadataAsValue (DILocalVariable ''tmp''),
           MetadataAsValue DIExpression],
        OtherInst] scan_start
     = Inr \<lparr>idx = 1, args = [''tmp''],
            cout = ''  i32 tmp;'' @ endl @
              ''  klee_make_symbolic(&tmp, sizeof(tmp), '' @ dquote @ ''tmp'' @ dquote @
              '');'' @ endl\<rparr>
   \<and> scan (ParseCommandLineOptions (plain_command ''f.bc'' ''f'')) [IntegerTy 32] 1
       [OtherInst, OtherInst] scan_start
     = Inr \<lparr>idx = 0, args = [], cout = []\<rparr>"
  by (simp add: is_debug_intrinsic_call_def scan_start_def variable_name_def getOperand_def
      and_then_def declare_symbolic_def decimal.simps digit_def)

subsection \<open>Fewer records than parameters\<close>

text \<open>
  Claim C3, as the code has it. When the entry block holds fewer records than the
  function has parameters (every call of the block being a record), the generator does
  not reject: generation succeeds, and the document holds the preamble, one declaration
  per found record, typed by the formal parameter of the same position, the call line
  built from the found names alone, and the closing text.
\<close>

theorem undercount_not_rejected:
  assumes "BasicBlocks F = BB # others" and "well_formed_calls BB"
    and "length (recovered_names BB) < length (formals F)"
    and "length (formals F) < 2 ^ 32"
  shows "harness opts F =
     Inr (preamble @
          concat (map2 (declare_symbolic opts) (formals F) (recovered_names BB)) @
          ''  '' @ FunctionName opts @ ''('' @
          call_arguments (length (formals F)) 0 (recovered_names BB) @
          epilogue)"
  using harness_result [OF assms(1,2,4), of opts] assms(3) by simp

theorem undercount_not_rejected_witness:
  "well_formed_calls [OtherInst, dbg_declare ''a'', OtherInst] \<and>
   harness (ParseCommandLineOptions (plain_command ''add.bc'' ''add''))
     \<lparr>function_name = ''add'', formals = [IntegerTy 32, IntegerTy 32],
      BasicBlocks = [[OtherInst, dbg_declare ''a'', OtherInst]]\<rparr> =
   Inr (preamble @
        ''  i32 a;'' @ endl @
        ''  klee_make_symbolic(&a, sizeof(a), '' @ dquote @ ''a'' @ dquote @ '');'' @ endl @
        ''  add(a, '' @
        epilogue)"
proof -
  let ?BB = "[OtherInst, dbg_declare ''a'', OtherInst]"
  let ?F = "\<lparr>function_name = ''add'', formals = [IntegerTy 32, IntegerTy 32],
      BasicBlocks = [?BB]\<rparr>"
  have names: "recovered_names ?BB = [''a'']"
    by (simp add: recovered_names_Cons recovered_name_def dbg_declare_def variable_name_def
        getOperand_def and_then_def recovered_names_def)
  have h1: "BasicBlocks ?F = ?BB # []" by simp
  have h2: "well_formed_calls ?BB"
    by (simp add: well_formed_calls_def recovered_name_def dbg_declare_def variable_name_def
        getOperand_def and_then_def)
  have h3: "length (recovered_names ?BB) < length (formals ?F)" by (simp add: names)
  have h4: "length (formals ?F) < 2 ^ 32" by simp
  note t = undercount_not_rejected [OF h1 h2 h3 h4,
      of "ParseCommandLineOptions (plain_command ''add.bc'' ''add'')"]
  from t h2 show ?thesis
    by (simp add: names declare_symbolic_def decimal.simps digit_def unsigned_pred_def
        ParseCommandLineOptions_def plain_command_def cl_init_def)
qed

theorem undercount_counterexample:
  "harness (ParseCommandLineOptions (plain_command ''f.bc'' ''f''))
     \<lparr>function_name = ''f'', formals = [IntegerTy 32], BasicBlocks = [[OtherInst]]\<rparr> =
   Inr (preamble @ ''  f('' @ epilogue)"
  by (simp add: harness_def getEntryBlock_def and_then_def scan_start_def to_unsigned_def
      ParseCommandLineOptions_def plain_command_def cl_init_def)

subsection \<open>Functions without parameters\<close>

text \<open>
  Claim C1, at the input where the code departs from it. For a function with no
  parameters the loop that writes the arguments has nothing to go through, and the
  terminator \<^verbatim>\<open>);\<close> is written only inside that loop: the call line is the
  function name and an open parenthesis, and the closing text follows directly.
  (With at least one parameter and as many records, \<open>harness_matching_records\<close>
  gives the call line the claim describes.)
\<close>

theorem zero_parameters_call_not_closed:
  assumes "formals F = []" and "BasicBlocks F = BB # others"
  shows "harness opts F = Inr (preamble @ ''  '' @ FunctionName opts @ ''('' @ epilogue)"
  using assms
  by (simp add: harness_def getEntryBlock_def and_then_def to_unsigned_def scan_stopped
      scan_start_def)

theorem zero_parameters_call_not_closed_witness:
  "harness (ParseCommandLineOptions (plain_command ''f.bc'' ''f''))
     \<lparr>function_name = ''f'', formals = [],
      BasicBlocks = [[CallInst ''g'' [], OtherInst]]\<rparr> =
   Inr (preamble @ ''  f('' @ epilogue)"
proof -
  let ?F = "\<lparr>function_name = ''f'', formals = [],
      BasicBlocks = [[CallInst ''g'' [], OtherInst]]\<rparr>"
  have h1: "formals ?F = []" by simp
  have h2: "BasicBlocks ?F = [CallInst ''g'' [], OtherInst] # []" by simp
  from zero_parameters_call_not_closed [OF h1 h2,
      of "ParseCommandLineOptions (plain_command ''f.bc'' ''f'')"]
  show ?thesis by (simp add: ParseCommandLineOptions_def plain_command_def cl_init_def)
qed

subsection \<open>Calls that are not debug records\<close>

text \<open>
  Claim C2, at the input where the code departs from it. A call to an ordinary function
  is not a call to a debug intrinsic, yet the scan does not skip it: with a parameter
  still unbound, the scan takes operand 1 of any call for a metadata wrapper. On
  \<^verbatim>\<open>foo(x, 1)\<close> the cast fails, and on \<^verbatim>\<open>foo()\<close> there is no operand 1; the
  same block with the call replaced by another instruction is scanned to the end.
\<close>

theorem ordinary_call_not_skipped:
  "\<not> is_debug_intrinsic_call (CallInst ''foo'' [OtherValue, OtherValue])
   \<and> harness (ParseCommandLineOptions (plain_command ''f.bc'' ''f''))
       \<lparr>function_name = ''f'', formals = [IntegerTy 32],
        BasicBlocks = [[CallInst ''foo'' [OtherValue, OtherValue], OtherInst]]\<rparr>
     = Inl CastFailed
   \<and> harness (ParseCommandLineOptions (plain_command ''f.bc'' ''f''))
       \<lparr>function_name = ''f'', formals = [IntegerTy 32],
        BasicBlocks = [[CallInst ''foo'' [], OtherInst]]\<rparr>
     = Inl OperandOutOfRange
   \<and> harness (ParseCommandLineOptions (plain_command ''f.bc'' ''f''))
       \<lparr>function_name = ''f'', formals = [IntegerTy 32],
        BasicBlocks = [[OtherInst, OtherInst]]\<rparr>
     = Inr (preamble @ ''  f('' @ epilogue)"
  by (simp add: is_debug_intrinsic_call_def harness_def getEntryBlock_def and_then_def
      scan_start_def to_unsigned_def variable_name_def getOperand_def
      ParseCommandLineOptions_def plain_command_def cl_init_def)

subsection \<open>A function name that does not resolve\<close>

text \<open>
  Claim C7, at the input where the code departs from it. A module that has no function
  of the requested name: \<^verbatim>\<open>getFunction\<close> returns null, and the next statement
  calls \<^verbatim>\<open>arg_size\<close> through it. The run ends there without a diagnostic of the
  tool's, while an error of the loader ends it with the banner that names the tool.
\<close>

theorem unknown_function_not_diagnosed:
  "getFunction
     \<lparr>ModuleID = ''m.bc'', module_triple = ''aarch64-linux-gnu'',
      FunctionList = [\<lparr>function_name = ''g'', formals = [], BasicBlocks = [[OtherInst]]\<rparr>]\<rparr>
     ''f'' = None
   \<and> process_module (ParseCommandLineOptions (plain_command ''m.bc'' ''f''))
       \<lparr>ModuleID = ''m.bc'', module_triple = ''aarch64-linux-gnu'',
        FunctionList = [\<lparr>function_name = ''g'', formals = [], BasicBlocks = [[OtherInst]]\<rparr>]\<rparr>
     = (\<lparr>ModuleID = ''m.bc'', module_triple = ''x86_64-pc-linux-gnu'',
         FunctionList = [\<lparr>function_name = ''g'', formals = [], BasicBlocks = [[OtherInst]]\<rparr>]\<rparr>,
        Inl NullFunction)
   \<and> main ''llvm-klee'' (plain_command ''m.bc'' ''f'')
       (Inr [Inr \<lparr>ModuleID = ''m.bc'', module_triple = ''aarch64-linux-gnu'',
          FunctionList = [\<lparr>function_name = ''g'', formals = [], BasicBlocks = [[OtherInst]]\<rparr>]\<rparr>])
     = ([], Some NullFunction)
   \<and> diagnostic NullFunction = None
   \<and> main ''llvm-klee'' (plain_command ''m.bc'' ''f'') (Inl ''No such file or directory'')
     = ([], Some (ExitOnError ''llvm-klee: error: No such file or directory''))
   \<and> diagnostic (ExitOnError ''llvm-klee: error: No such file or directory'')
     = Some ''llvm-klee: error: No such file or directory''"
  by (simp add: getFunction_def process_module_def setTargetTriple_def main_def ExitOnErr_def
      written_at_failure_def ParseCommandLineOptions_def plain_command_def cl_init_def)

end
